theory Spec2Isabelle
  imports Main
begin

section \<open>The spreadsheet utilities of react-spreadsheet (util.ts)\<close>

text \<open>
  The development embeds the utility module of the spreadsheet: the numeric \<open>range\<close>
  helper, the clipboard reader, the pixel dimensions of cells and ranges, the evaluator
  of cells, the normalisation of selections, the CSV export and the sizing helper.
  The modules \<open>point\<close>, \<open>point-range\<close>, \<open>matrix\<close>, \<open>formula\<close> and \<open>types\<close> that the
  utility module imports are not part of the sources at hand; what is needed of them is
  modelled from the specification and marked so.
\<close>

subsection \<open>JavaScript values\<close>

text \<open>
  The values a cell or a parser response can hold. Numbers are the integer-valued doubles,
  written as integers (\<open>NaN\<close> and fractions are outside the model); objects are not
  modelled.
\<close>

datatype jsval = JUndefined | JNull | JBool bool | JNum int | JStr string

text \<open>JavaScript truthiness: \<open>undefined\<close>, \<open>null\<close>, \<open>false\<close>, \<open>0\<close> and \<open>""\<close> are falsy.\<close>

fun truthy :: "jsval \<Rightarrow> bool" where
  "truthy JUndefined = False"
| "truthy JNull = False"
| "truthy (JBool b) = b"
| "truthy (JNum n) = (n \<noteq> 0)"
| "truthy (JStr s) = (s \<noteq> [])"

text \<open>The operator \<open>a || b\<close>: \<open>a\<close> when it is truthy, \<open>b\<close> otherwise.\<close>

definition js_or :: "jsval \<Rightarrow> jsval \<Rightarrow> jsval" where
  "js_or a b = (if truthy a then a else b)"

subsection \<open>Numbers as doubles\<close>

text \<open>
  A number of the source is an IEEE double. The integers among the doubles are the integers
  of magnitude up to \<open>2^53\<close> and, beyond, the integers of at most 53 significant bits.
  \<open>bit_length\<close> is the number of bits of a positive integer.
\<close>

function bit_length :: "int \<Rightarrow> nat" where
  "bit_length n = (if n \<le> 0 then 0 else Suc (bit_length (n div 2)))"
  by pat_completeness auto
termination
  by (relation "measure nat") auto

declare bit_length.simps [simp del]

text \<open>
  The double nearest to an integer, ties going to the even significand: the result of an
  addition or a subtraction of two integer-valued doubles is \<open>round_double\<close> of the exact
  result. The exponent is not bounded here; where the source would reach \<open>Infinity\<close> the
  model has an integer of magnitude \<open>2^1024\<close> or more, which compares with every other
  double as the infinity does.
\<close>

definition round_double :: "int \<Rightarrow> int" where
  "round_double x =
     (let m = \<bar>x\<bar>
      in if m \<le> 2 ^ 53 then x
         else (let u = 2 ^ (bit_length m - 53);
                   q = m div u;
                   r = m mod u;
                   q' = (if u < 2 * r \<or> (2 * r = u \<and> odd q) then q + 1 else q)
               in sgn x * (q' * u)))"

text \<open>The decimal digits of a non-negative integer, and of an integer with its sign.\<close>

function digits_of :: "int \<Rightarrow> string" where
  "digits_of n =
     (if n < 10 then [char_of (48 + n)]
      else digits_of (n div 10) @ [char_of (48 + n mod 10)])"
  by pat_completeness auto
termination
  by (relation "measure nat") auto

definition string_of_int :: "int \<Rightarrow> string" where
  "string_of_int i = (if i < 0 then CHR ''-'' # digits_of (- i) else digits_of i)"

text \<open>
  \<open>String(n)\<close> of a number prints the decimal with the fewest significant digits that reads
  back as the same double, the closest one if there are several. \<open>shortest_decimal x n ks\<close>
  tries the digit counts \<open>ks\<close> in turn for the double \<open>x\<close> of \<open>n\<close> decimal digits: the
  multiples of the power of ten just below and just above \<open>x\<close> are the candidates.
\<close>

fun shortest_decimal :: "int \<Rightarrow> nat \<Rightarrow> nat list \<Rightarrow> int" where
  "shortest_decimal x n [] = x"
| "shortest_decimal x n (k # ks) =
     (let p = 10 ^ (n - k);
          lo = (x div p) * p;
          hi = lo + p;
          lo_ok = (round_double lo = x);
          hi_ok = (round_double hi = x)
      in if lo_ok \<and> hi_ok
         then (if x - lo < hi - x then lo
               else if hi - x < x - lo then hi
               else if even (lo div p) then lo else hi)
         else if lo_ok then lo
         else if hi_ok then hi
         else shortest_decimal x n ks)"

text \<open>
  A decimal of up to 21 digits is printed in full, a longer one in exponent notation. Up to
  \<open>2^53\<close> every integer is its own shortest decimal; from \<open>2^1024\<close> on the number is the
  infinity. A numeral that is no double stands for the double nearest to it, as a literal
  of the source does.
\<close>

definition large_to_string :: "int \<Rightarrow> string" where
  "large_to_string x =
     (let c = shortest_decimal x (length (digits_of x)) [1 ..< 18];
          ds = digits_of c;
          n = length ds
      in if n \<le> 21 then ds
         else (case rev (dropWhile (\<lambda>d. d = CHR ''0'') (rev ds)) of
                 [] \<Rightarrow> ds
               | [d] \<Rightarrow> d # ''e+'' @ digits_of (int n - 1)
               | d # d' # s \<Rightarrow> d # CHR ''.'' # d' # s @ ''e+'' @ digits_of (int n - 1)))"

definition number_to_string :: "int \<Rightarrow> string" where
  "number_to_string n =
     (let x = round_double n
      in if \<bar>x\<bar> \<le> 2 ^ 53 then string_of_int x
         else if 2 ^ 1024 \<le> \<bar>x\<bar> then (if x < 0 then ''-Infinity'' else ''Infinity'')
         else if x < 0 then CHR ''-'' # large_to_string (- x)
         else large_to_string x)"

text \<open>The conversion \<open>String(v)\<close>.\<close>

fun String_js :: "jsval \<Rightarrow> string" where
  "String_js JUndefined = ''undefined''"
| "String_js JNull = ''null''"
| "String_js (JBool b) = (if b then ''true'' else ''false'')"
| "String_js (JNum n) = number_to_string n"
| "String_js (JStr s) = s"

subsection \<open>The numeric range helper\<close>

text \<open>
  \<open>range(end, start = 0, step = 1)\<close> runs one of two \<open>for\<close> loops, pushing the loop
  variable onto an array. The arguments are integer-valued doubles, so \<open>element += step\<close>
  and \<open>element -= step\<close> round their result, and \<open>Math.sign(end - start)\<close> is the sign of
  the rounded difference. An array holds at most \<open>2^32 - 1\<close> elements: the push onto a full
  array throws a \<open>RangeError\<close>, which ends the call without a result. Each loop therefore
  ends, with the array or with the error. The memory of the engine is not modelled.
\<close>

datatype error = RangeError

definition MAX_ARRAY_LENGTH :: nat where
  "MAX_ARRAY_LENGTH = 4294967295"

function range_down :: "int \<Rightarrow> int \<Rightarrow> int \<Rightarrow> int list \<Rightarrow> error + int list" where
  "range_down end' step element array =
     (if element > end'
      then (if length array < MAX_ARRAY_LENGTH
            then range_down end' step (round_double (element - step)) (array @ [element])
            else Inl RangeError)
      else Inr array)"
  by pat_completeness auto
termination
  by (relation "measure (\<lambda>(e, st, el, arr). MAX_ARRAY_LENGTH - length arr)") auto

function range_up :: "int \<Rightarrow> int \<Rightarrow> int \<Rightarrow> int list \<Rightarrow> error + int list" where
  "range_up end' step element array =
     (if element < end'
      then (if length array < MAX_ARRAY_LENGTH
            then range_up end' step (round_double (element + step)) (array @ [element])
            else Inl RangeError)
      else Inr array)"
  by pat_completeness auto
termination
  by (relation "measure (\<lambda>(e, st, el, arr). MAX_ARRAY_LENGTH - length arr)") auto

declare range_down.simps [simp del]
declare range_up.simps [simp del]

definition range_util :: "int \<Rightarrow> int \<Rightarrow> int \<Rightarrow> error + int list" where
  "range_util end' start step =
     (if sgn (round_double (end' - start)) = - 1 then range_down end' step start []
      else range_up end' step start [])"

subsection \<open>Points, point ranges and selections\<close>

text \<open>
  Modelled from the spec: the module \<open>point\<close> is missing. A point is a grid coordinate
  of two non-negative integers, and the origin is \<open>(0, 0)\<close>.
\<close>

record point =
  row :: nat
  column :: nat

definition ORIGIN :: point where
  "ORIGIN = \<lparr>row = 0, column = 0\<rparr>"

text \<open>
  Modelled from the spec: the module \<open>point-range\<close> is missing. A point range is an
  inclusive rectangle given by two corner points.
\<close>

record point_range =
  start :: point
  "end" :: point

text \<open>
  Modelled from the spec: \<open>PointRange.create\<close> is missing. It normalises two arbitrary
  corners by taking the componentwise minimum and maximum.
\<close>

definition create :: "point \<Rightarrow> point \<Rightarrow> point_range" where
  "create corner1 corner2 =
     \<lparr>start = \<lparr>row = min (row corner1) (row corner2), column = min (column corner1) (column corner2)\<rparr>,
      end = \<lparr>row = max (row corner1) (row corner2), column = max (column corner1) (column corner2)\<rparr>\<rparr>"

text \<open>
  Modelled from the spec: \<open>PointRange.mask\<close> is missing. It clamps both corners of the
  range into the bounds, componentwise; a corner beyond the bounds lands on the boundary.
  The bounds are the point range that \<open>normalizeSelected\<close> passes, read as the inclusive
  rectangle between its corners.
\<close>

definition clamp_point :: "point_range \<Rightarrow> point \<Rightarrow> point" where
  "clamp_point bounds p =
     \<lparr>row = max (row (start bounds)) (min (row (end bounds)) (row p)),
      column = max (column (start bounds)) (min (column (end bounds)) (column p))\<rparr>"

definition mask_range :: "point_range \<Rightarrow> point_range \<Rightarrow> point_range" where
  "mask_range masked bounds =
     \<lparr>start = clamp_point bounds (start masked), end = clamp_point bounds (end masked)\<rparr>"

text \<open>
  Modelled from the spec: \<open>PointRange.iterate\<close> is missing. It yields the points of the
  range with an outer loop over the rows and an inner loop over the columns, both corners
  included. The list is the materialised sequence.
\<close>

definition iterate :: "point_range \<Rightarrow> point list" where
  "iterate rng =
     concat (map (\<lambda>r. map (\<lambda>c. \<lparr>row = r, column = c\<rparr>)
                          [column (start rng) ..< Suc (column (end rng))])
                 [row (start rng) ..< Suc (row (end rng))])"

text \<open>
  Modelled from the spec: the type \<open>Selected\<close> of the module \<open>types\<close> is missing. A selection
  is a tagged variant: nothing, a range, entire rows, entire columns or the entire table.
  The spec does not say what the row and column variants carry; here it is the first and
  the last index, and no function below reads them.
\<close>

datatype selected =
    EmptySelection
  | RangeSelection point_range
  | EntireRowsSelection nat nat
  | EntireColumnsSelection nat nat
  | EntireTableSelection

text \<open>
  Modelled from the spec: \<open>PointRange.is\<close> is missing. It tells whether a selection
  denotes a concrete rectangle.
\<close>

fun is_range :: "selected \<Rightarrow> bool" where
  "is_range (RangeSelection r) = True"
| "is_range s = False"

text \<open>A range lies within bounds when both of its corners lie in the rectangle of the bounds.\<close>

definition point_within :: "point_range \<Rightarrow> point \<Rightarrow> bool" where
  "point_within bounds p =
     (row (start bounds) \<le> row p \<and> row p \<le> row (end bounds) \<and>
      column (start bounds) \<le> column p \<and> column p \<le> column (end bounds))"

definition contained :: "point_range \<Rightarrow> point_range \<Rightarrow> bool" where
  "contained rng bounds = (point_within bounds (start rng) \<and> point_within bounds (end rng))"

subsection \<open>Matrices\<close>

text \<open>
  Modelled from the spec: the module \<open>matrix\<close> is missing. A matrix is an array of rows,
  each an array of cells; a cell absent from storage is \<open>None\<close>, and rows may differ in
  length.
\<close>

type_synonym 'a matrix = "'a option list list"

text \<open>
  Modelled from the spec: \<open>Matrix.get\<close> is missing. A point out of range yields the absent
  cell.
\<close>

definition get :: "point \<Rightarrow> 'a matrix \<Rightarrow> 'a option" where
  "get p matrix =
     (if row p < length matrix \<and> column p < length (matrix ! row p)
      then matrix ! row p ! column p else None)"

text \<open>
  Modelled from the spec: \<open>Matrix.maxPoint\<close> is missing. It scans the present entries and
  returns the point one past the highest occupied row and column, the origin for a matrix
  with no entry. \<open>occupied_columns\<close> is one past the last present entry of a row.
\<close>

definition occupied_columns :: "'a option list \<Rightarrow> nat" where
  "occupied_columns cells = length (dropWhile (\<lambda>c. c = None) (rev cells))"

definition maxPoint :: "'a matrix \<Rightarrow> point" where
  "maxPoint matrix =
     \<lparr>row = length (dropWhile (\<lambda>cells. occupied_columns cells = 0) (rev matrix)),
      column = fold (\<lambda>cells acc. max (occupied_columns cells) acc) matrix 0\<rparr>"

record matrix_size =
  rows :: nat
  columns :: nat

text \<open>Modelled from the spec: \<open>Matrix.getSize\<close> is missing. The size is derived from \<open>maxPoint\<close>.\<close>

definition getSize :: "'a matrix \<Rightarrow> matrix_size" where
  "getSize matrix = \<lparr>rows = row (maxPoint matrix), columns = column (maxPoint matrix)\<rparr>"

text \<open>
  Modelled from the spec: \<open>Matrix.slice\<close> is missing. The sub-matrix between two corners,
  re-indexed so that the first corner is the new origin; absent cells stay absent.
\<close>

definition slice :: "point \<Rightarrow> point \<Rightarrow> 'a matrix \<Rightarrow> 'a matrix" where
  "slice startPoint endPoint matrix =
     map (\<lambda>r. map (\<lambda>c. get \<lparr>row = r, column = c\<rparr> matrix)
                   [column startPoint ..< Suc (column endPoint)])
         [row startPoint ..< Suc (row endPoint)]"

text \<open>
  Modelled from the spec: \<open>Matrix.map\<close> is missing. It applies the function at every
  position of the bounding box, the absent ones included, and keeps the shape.
\<close>

definition map_matrix :: "('a option \<Rightarrow> 'b) \<Rightarrow> 'a matrix \<Rightarrow> 'b matrix" where
  "map_matrix f matrix =
     map (\<lambda>r. map (\<lambda>c. Some (f (get \<lparr>row = r, column = c\<rparr> matrix)))
                   [0 ..< columns (getSize matrix)])
         [0 ..< rows (getSize matrix)]"

text \<open>Strings joined with a separator between neighbours.\<close>

fun join_strings :: "string \<Rightarrow> string list \<Rightarrow> string" where
  "join_strings sep [] = []"
| "join_strings sep [x] = x"
| "join_strings sep (x # y # ys) = x @ sep @ join_strings sep (y # ys)"

text \<open>
  Modelled from the spec: \<open>Matrix.join\<close> is missing. Row-major flattening: every row of
  the bounding box is a line of its cells' values rendered as text and separated by the
  column delimiter, an absent cell is an empty field, and the lines are separated by the
  row delimiter. The delimiters default to a newline and a tab.
\<close>

definition join :: "jsval matrix \<Rightarrow> string \<Rightarrow> string \<Rightarrow> string" where
  "join matrix rowDelimiter colDelimiter =
     join_strings rowDelimiter
       (map (\<lambda>r. join_strings colDelimiter
                    (map (\<lambda>c. case get \<lparr>row = r, column = c\<rparr> matrix of
                                 None \<Rightarrow> [] | Some v \<Rightarrow> String_js v)
                         [0 ..< columns (getSize matrix)]))
            [0 ..< rows (getSize matrix)])"

definition NEWLINE :: string where
  "NEWLINE = [CHR 0x0A]"

definition TAB :: string where
  "TAB = [CHR 0x09]"

subsection \<open>Cells and formulas\<close>

text \<open>
  Modelled from the spec: the type \<open>CellBase\<close> of the module \<open>types\<close> is missing. A cell
  has a value and the optional fields \<open>readOnly\<close> and \<open>className\<close>.
\<close>

record cell =
  "value" :: jsval
  readOnly :: "bool option"
  className :: "string option"

text \<open>
  Modelled from the spec: the module \<open>formula\<close> is missing. A value is a formula value iff
  it is a string that begins with the formula marker, which the spec's example \<open>=1+1\<close>
  shows to be the equals sign; extraction strips the marker.
\<close>

definition FORMULA_VALUE_PREFIX :: char where
  "FORMULA_VALUE_PREFIX = CHR ''=''"

fun isFormulaValue :: "jsval \<Rightarrow> bool" where
  "isFormulaValue (JStr (c # cs)) = (c = FORMULA_VALUE_PREFIX)"
| "isFormulaValue v = False"

fun extractFormula :: "jsval \<Rightarrow> string" where
  "extractFormula (JStr (c # cs)) = cs"
| "extractFormula v = []"

text \<open>
  The response of the injected formula parser: \<open>parse(expression)\<close> returns an object
  with the fields \<open>result\<close> and \<open>error\<close>; a field the object lacks reads as
  \<open>undefined\<close>. The parser itself is a parameter of the evaluator.
\<close>

record parse_response =
  result :: jsval
  error :: jsval

type_synonym formula_parser = "string \<Rightarrow> parse_response"

definition isFormulaCell :: "cell \<Rightarrow> bool" where
  "isFormulaCell c = isFormulaValue (value c)"

definition getFormulaComputedValue :: "cell \<Rightarrow> formula_parser \<Rightarrow> jsval" where
  "getFormulaComputedValue c formulaParser =
     (let formula = extractFormula (value c);
          response = formulaParser formula
      in js_or (error response) (result response))"

definition getComputedValue :: "cell option \<Rightarrow> formula_parser \<Rightarrow> jsval" where
  "getComputedValue c formulaParser =
     (case c of
        None \<Rightarrow> JNull
      | Some c' \<Rightarrow>
          if isFormulaCell c' then getFormulaComputedValue c' formulaParser
          else value c')"

subsection \<open>Reading the clipboard\<close>

text \<open>
  A clipboard object may or may not have a \<open>getData\<close> method, which maps a format name to
  the text stored for it. The global \<open>window.clipboardData\<close> and the event's
  \<open>clipboardData\<close> may each be missing.
\<close>

record clipboard =
  getData :: "(string \<Rightarrow> string) option"

record clipboard_event =
  clipboardData :: "clipboard option"

definition PLAIN_TEXT_MIME :: string where
  "PLAIN_TEXT_MIME = ''text/plain''"

text \<open>The test \<open>data && data.getData\<close>: the method, when the object and the method exist.\<close>

definition getData_of :: "clipboard option \<Rightarrow> (string \<Rightarrow> string) option" where
  "getData_of data = (case data of None \<Rightarrow> None | Some d \<Rightarrow> getData d)"

definition readTextFromClipboard :: "clipboard option \<Rightarrow> clipboard_event \<Rightarrow> string" where
  "readTextFromClipboard window_clipboardData event =
     (case getData_of window_clipboardData of
        Some g \<Rightarrow> g ''Text''
      | None \<Rightarrow>
          (case getData_of (clipboardData event) of
             Some g \<Rightarrow> g PLAIN_TEXT_MIME
           | None \<Rightarrow> []))"

text \<open>
  The reading order of the specification, for comparison: the event's payload first, the
  global accessor as the fallback, the empty string when neither is there.
\<close>

definition readTextFromClipboard_spec :: "clipboard option \<Rightarrow> clipboard_event \<Rightarrow> string" where
  "readTextFromClipboard_spec window_clipboardData event =
     (case getData_of (clipboardData event) of
        Some g \<Rightarrow> g PLAIN_TEXT_MIME
      | None \<Rightarrow>
          (case getData_of window_clipboardData of
             Some g \<Rightarrow> g ''Text''
           | None \<Rightarrow> []))"

subsection \<open>Pixel dimensions of cells and ranges\<close>

text \<open>
  Modelled from the spec: the types \<open>Dimensions\<close> and \<open>StoreState\<close> of the module \<open>types\<close>
  are missing. The state holds dimension metadata per row (height and top) and per column
  (width and left), each possibly missing; the pixel values are integers, as the offsets
  of \<open>getOffsetRect\<close> are. The other fields of the state are not read here.
\<close>

record dimensions =
  width :: int
  height :: int
  top_px :: int
  left :: int

record row_dimensions =
  row_height :: int
  row_top :: int

record column_dimensions =
  column_width :: int
  column_left :: int

record store_state =
  rowDimensions :: "nat \<rightharpoonup> row_dimensions"
  columnDimensions :: "nat \<rightharpoonup> column_dimensions"

definition getCellDimensions :: "point \<Rightarrow> store_state \<Rightarrow> dimensions option" where
  "getCellDimensions p state =
     (case rowDimensions state (row p) of
        None \<Rightarrow> None
      | Some rd \<Rightarrow>
          (case columnDimensions state (column p) of
             None \<Rightarrow> None
           | Some cd \<Rightarrow>
               Some \<lparr>width = column_width cd, height = row_height rd,
                     top_px = row_top rd, left = column_left cd\<rparr>))"

definition getRangeDimensions :: "store_state \<Rightarrow> point_range \<Rightarrow> dimensions option" where
  "getRangeDimensions state rng =
     (case getCellDimensions (start rng) state of
        None \<Rightarrow> None
      | Some startDimensions \<Rightarrow>
          (case getCellDimensions (end rng) state of
             None \<Rightarrow> None
           | Some endDimensions \<Rightarrow>
               Some \<lparr>width = left endDimensions + width endDimensions - left startDimensions,
                     height = top_px endDimensions + height endDimensions - top_px startDimensions,
                     top_px = top_px startDimensions,
                     left = left startDimensions\<rparr>))"

subsection \<open>Selections against a matrix\<close>

text \<open>
  Where the source tests \<open>PointRange.is(selected)\<close> and then uses the selection as a point
  range, the model matches on the range variant, which is the variant \<open>is_range\<close> accepts.
\<close>

definition getMatrixRange :: "'a matrix \<Rightarrow> point_range" where
  "getMatrixRange data = (let maxPoint = maxPoint data in create ORIGIN maxPoint)"

definition normalizeSelected :: "selected \<Rightarrow> 'a matrix \<Rightarrow> selected" where
  "normalizeSelected selected data =
     (let dataRange = getMatrixRange data
      in case selected of
           RangeSelection r \<Rightarrow> RangeSelection (mask_range r dataRange)
         | _ \<Rightarrow> selected)"

definition getSelectedPoints :: "selected \<Rightarrow> point list" where
  "getSelectedPoints selected = (case selected of RangeSelection r \<Rightarrow> iterate r | _ \<Rightarrow> [])"

subsection \<open>CSV export\<close>

definition getRangeFromMatrix :: "point_range \<Rightarrow> 'a matrix \<Rightarrow> 'a matrix" where
  "getRangeFromMatrix rng matrix = slice (start rng) (end rng) matrix"

text \<open>The mapped function is \<open>cell?.value || ""\<close>: the value of a present cell, or the
  empty string when the cell is absent or its value is falsy.\<close>

definition csv_value :: "cell option \<Rightarrow> jsval" where
  "csv_value c = js_or (case c of None \<Rightarrow> JUndefined | Some c' \<Rightarrow> value c') (JStr [])"

definition getCSV :: "cell matrix \<Rightarrow> string" where
  "getCSV data = (let valueMatrix = map_matrix csv_value data in join valueMatrix NEWLINE TAB)"

definition getSelectedCSV :: "selected \<Rightarrow> cell matrix \<Rightarrow> string" where
  "getSelectedCSV selected data =
     (case selected of
        RangeSelection r \<Rightarrow> (let selectedData = getRangeFromMatrix r data in getCSV selectedData)
      | _ \<Rightarrow> [])"

subsection \<open>The size of the spreadsheet\<close>

definition calculateSpreadsheetSize ::
    "'a matrix \<Rightarrow> string list option \<Rightarrow> string list option \<Rightarrow> matrix_size" where
  "calculateSpreadsheetSize data rowLabels columnLabels =
     (let size = getSize data
      in \<lparr>rows = (case rowLabels of Some ls \<Rightarrow> max (rows size) (length ls) | None \<Rightarrow> rows size),
          columns = (case columnLabels of Some ls \<Rightarrow> max (columns size) (length ls)
                     | None \<Rightarrow> columns size)\<rparr>)"

text \<open>The row-major order on points: by row first, then by column.\<close>

definition row_major_less :: "point \<Rightarrow> point \<Rightarrow> bool" where
  "row_major_less p q = (row p < row q \<or> (row p = row q \<and> column p < column q))"

subsection \<open>Sample inputs\<close>

text \<open>Concrete cells, parsers, matrices, clipboards and a store state on which the
  theorems below are instantiated.\<close>

definition text_cell :: "string \<Rightarrow> cell" where
  "text_cell s = \<lparr>value = JStr s, readOnly = None, className = None\<rparr>"

definition number_cell :: "int \<Rightarrow> cell" where
  "number_cell n = \<lparr>value = JNum n, readOnly = None, className = None\<rparr>"

definition empty_cell :: cell where
  "empty_cell = \<lparr>value = JUndefined, readOnly = None, className = None\<rparr>"

definition two_parser :: formula_parser where
  "two_parser formula = \<lparr>result = JNum 2, error = JUndefined\<rparr>"

definition empty_error_parser :: formula_parser where
  "empty_error_parser formula = \<lparr>result = JUndefined, error = JStr []\<rparr>"

definition div0_parser :: formula_parser where
  "div0_parser formula = \<lparr>result = JUndefined, error = JStr ''#DIV/0!''\<rparr>"

definition abcd :: "cell matrix" where
  "abcd = [[Some (text_cell ''a''), Some (text_cell ''b'')],
           [Some (text_cell ''c''), Some (text_cell ''d'')]]"

definition zero_seven :: "cell matrix" where
  "zero_seven = [[Some (number_cell 0), Some (number_cell 7)]]"

definition global_clipboard :: clipboard where
  "global_clipboard = \<lparr>getData = Some (\<lambda>format. ''from window'')\<rparr>"

definition event_clipboard :: clipboard where
  "event_clipboard = \<lparr>getData = Some (\<lambda>format. ''from event'')\<rparr>"

definition sample_state :: store_state where
  "sample_state =
     \<lparr>rowDimensions = [0 \<mapsto> \<lparr>row_height = 20, row_top = 0\<rparr>, 1 \<mapsto> \<lparr>row_height = 20, row_top = 20\<rparr>],
      columnDimensions = [0 \<mapsto> \<lparr>column_width = 100, column_left = 0\<rparr>,
                          1 \<mapsto> \<lparr>column_width = 80, column_left = 100\<rparr>]\<rparr>"

section \<open>Properties\<close>

subsection \<open>Rounding to a double\<close>

text \<open>Integers up to \<open>2^53\<close> in magnitude are doubles; rounding never crosses \<open>2^53\<close> or
  its negative, is odd and keeps the sign.\<close>

lemma round_double_exact: "\<bar>x\<bar> \<le> 2 ^ 53 \<Longrightarrow> round_double x = x"
  by (simp add: round_double_def)

lemma round_double_minus: "round_double (- x) = - round_double x"
  by (simp add: round_double_def Let_def)

lemma bit_length_bounds: "0 < n \<Longrightarrow> 2 ^ (bit_length n - 1) \<le> n \<and> n < 2 ^ bit_length n"
proof (induction n rule: bit_length.induct)
  case (1 n)
  show ?case
  proof (cases "n = 1")
    case True
    then show ?thesis by (simp add: bit_length.simps)
  next
    case False
    with 1(2) have h: "0 < n div 2" by simp
    have bl: "bit_length n = Suc (bit_length (n div 2))"
      using 1(2) by (subst bit_length.simps) simp
    have pos: "0 < bit_length (n div 2)"
      using h by (subst bit_length.simps) simp
    from 1(1) h 1(2) have ih: "2 ^ (bit_length (n div 2) - 1) \<le> n div 2"
      "n div 2 < 2 ^ bit_length (n div 2)" by simp_all
    from pos have p: "(2::int) ^ bit_length (n div 2) = 2 * 2 ^ (bit_length (n div 2) - 1)"
      by (cases "bit_length (n div 2)") simp_all
    from ih have "2 * 2 ^ (bit_length (n div 2) - 1) \<le> n" "n < 2 * 2 ^ bit_length (n div 2)"
      by linarith+
    with p bl show ?thesis by simp
  qed
qed

lemma round_double_large: "2 ^ 53 < x \<Longrightarrow> 2 ^ 53 \<le> round_double x"
proof -
  assume x: "2 ^ 53 < x"
  then have xpos: "0 < x" by simp
  let ?b = "bit_length x"
  from bit_length_bounds [OF xpos] have lo: "2 ^ (?b - 1) \<le> x" and hi: "x < 2 ^ ?b" by simp_all
  have b54: "54 \<le> ?b"
  proof (rule ccontr)
    assume "\<not> 54 \<le> ?b"
    then have "?b \<le> 53" by simp
    then have "(2::int) ^ ?b \<le> 2 ^ 53" by (intro power_increasing) simp_all
    with hi x show False by linarith
  qed
  define u :: int where "u = 2 ^ (?b - 53)"
  have upos: "0 < u" by (simp add: u_def)
  have u2: "2 \<le> u"
  proof -
    have "(2::int) ^ 1 \<le> 2 ^ (?b - 53)" using b54 by (intro power_increasing) simp_all
    then show ?thesis by (simp add: u_def)
  qed
  have "(2::int) ^ 52 * u = 2 ^ (52 + (?b - 53))" by (simp add: u_def power_add)
  also have "52 + (?b - 53) = ?b - 1" using b54 by simp
  finally have "2 ^ 52 * u \<le> x" using lo by simp
  then have "(2 ^ 52 * u) div u \<le> x div u" by (intro zdiv_mono1 upos)
  then have q: "2 ^ 52 \<le> x div u" using upos by simp
  define q' where "q' = (if u < 2 * (x mod u) \<or> (2 * (x mod u) = u \<and> odd (x div u)) then x div u + 1 else x div u)"
  have "x div u \<le> q'" by (simp add: q'_def)
  with q have "2 ^ 52 \<le> q'" by linarith
  then have "2 ^ 52 * 2 \<le> q' * u" using u2 by (intro mult_mono) simp_all
  moreover have "round_double x = q' * u"
    using x xpos by (simp add: round_double_def Let_def u_def q'_def)
  ultimately show ?thesis by simp
qed

lemma round_double_small: "x < - (2 ^ 53) \<Longrightarrow> round_double x \<le> - (2 ^ 53)"
  using round_double_large [of "- x"] by (simp add: round_double_minus)

lemma sgn_round_double: "sgn (round_double x) = sgn x"
proof -
  consider "\<bar>x\<bar> \<le> 2 ^ 53" | "2 ^ 53 < x" | "x < - (2 ^ 53)" by linarith
  then show ?thesis
  proof cases
    case 1
    then show ?thesis by (simp add: round_double_exact)
  next
    case 2
    with round_double_large [OF 2] show ?thesis by simp
  next
    case 3
    with round_double_small [OF 3] show ?thesis by simp
  qed
qed

subsection \<open>The numeric range helper\<close>

text \<open>The number of elements a loop pushes is the distance to the end divided by the step,
  rounded up.\<close>

lemma count_zero: "1 \<le> step \<Longrightarrow> d \<le> 0 \<Longrightarrow> nat ((d + step - 1) div step) = 0"
  for step :: int
proof -
  assume a: "1 \<le> step" "d \<le> 0"
  have "d + step - 1 < step" using a by linarith
  then have "(d + step - 1) div step \<le> 0"
  proof (cases "0 \<le> d + step - 1")
    case True
    with \<open>d + step - 1 < step\<close> show ?thesis by (simp add: div_pos_pos_trivial)
  next
    case False
    with a(1) have "(d + step - 1) div step < 0" by (intro div_neg_pos_less0) simp_all
    then show ?thesis by simp
  qed
  then show ?thesis by simp
qed

lemma count_Suc: "1 \<le> step \<Longrightarrow> 0 < d \<Longrightarrow>
   nat ((d + step - 1) div step) = Suc (nat ((d - step + step - 1) div step))"
  for step :: int
proof -
  assume a: "1 \<le> step" "0 < d"
  have "(d + step - 1) = (d - 1) + 1 * step" by simp
  then have "(d + step - 1) div step = (d - 1) div step + 1"
    using a(1) by (metis div_mult_self1 add.commute not_one_le_zero)
  moreover have "0 \<le> (d - 1) div step" using a by (simp add: pos_imp_zdiv_nonneg_iff)
  ultimately show ?thesis by simp
qed

lemma count_one: "1 \<le> step \<Longrightarrow> 0 < d \<Longrightarrow> d \<le> step \<Longrightarrow> nat ((d + step - 1) div step) = 1"
  for step :: int
  using count_Suc [of step d] count_zero [of step "d - step"] by simp

lemma range_up_closed:
  assumes "1 \<le> step" and "e \<le> 2 ^ 53"
  shows "- (2 ^ 53) \<le> x \<Longrightarrow> length acc \<le> MAX_ARRAY_LENGTH \<Longrightarrow>
   range_up e step x acc =
     (if length acc + nat ((e - x + step - 1) div step) \<le> MAX_ARRAY_LENGTH
      then Inr (acc @ map (\<lambda>k. x + int k * step) [0..<nat ((e - x + step - 1) div step)])
      else Inl RangeError)"
proof (induction "nat (e - x)" arbitrary: x acc rule: less_induct)
  case less
  show ?case
  proof (cases "x < e")
    case False
    then have "nat ((e - x + step - 1) div step) = 0"
      using count_zero [of step "e - x"] assms(1) by simp
    with False less.prems show ?thesis by (subst range_up.simps) simp
  next
    case True
    show ?thesis
    proof (cases "length acc < MAX_ARRAY_LENGTH")
      case False
      have "0 < nat ((e - x + step - 1) div step)"
        using count_Suc [of step "e - x"] assms(1) True by simp
      with False True show ?thesis by (subst range_up.simps) simp
    next
      case room: True
      show ?thesis
      proof (cases "x + step \<le> 2 ^ 53")
        case exact: True
        have rd: "round_double (x + step) = x + step"
          using exact less.prems(1) assms(1) by (intro round_double_exact) simp
        let ?n = "nat ((e - (x + step) + step - 1) div step)"
        have n: "nat ((e - x + step - 1) div step) = Suc ?n"
          using count_Suc [of step "e - x"] assms(1) True by (simp add: algebra_simps)
        have "nat (e - (x + step)) < nat (e - x)" using True assms(1) by linarith
        moreover have "- (2 ^ 53) \<le> x + step" using less.prems(1) assms(1) by linarith
        moreover have "length (acc @ [x]) \<le> MAX_ARRAY_LENGTH" using room by simp
        ultimately have ih: "range_up e step (x + step) (acc @ [x]) =
          (if length (acc @ [x]) + ?n \<le> MAX_ARRAY_LENGTH
           then Inr ((acc @ [x]) @ map (\<lambda>k. (x + step) + int k * step) [0..<?n])
           else Inl RangeError)"
          using less.hyps by blast
        have "map (\<lambda>k. x + int k * step) [0..<Suc ?n] =
              x # map (\<lambda>k. (x + step) + int k * step) [0..<?n]"
          by (simp add: upt_conv_Cons map_Suc_upt [symmetric] algebra_simps del: upt_Suc)
        with ih n True room rd show ?thesis by (subst range_up.simps) simp
      next
        case False
        then have big: "2 ^ 53 < x + step" by simp
        from round_double_large [OF big] assms(2) have stop: "\<not> round_double (x + step) < e"
          by linarith
        have "e - x \<le> step" using big assms(2) by linarith
        then have n: "nat ((e - x + step - 1) div step) = 1"
          using count_one [of step "e - x"] assms(1) True by simp
        have "range_up e step x acc = range_up e step (round_double (x + step)) (acc @ [x])"
          using True room by (subst range_up.simps) simp
        also have "\<dots> = Inr (acc @ [x])"
          using stop by (subst range_up.simps) simp
        finally show ?thesis using n room by simp
      qed
    qed
  qed
qed

lemma range_down_closed:
  assumes "1 \<le> step" and "- (2 ^ 53) \<le> e"
  shows "x \<le> 2 ^ 53 \<Longrightarrow> length acc \<le> MAX_ARRAY_LENGTH \<Longrightarrow>
   range_down e step x acc =
     (if length acc + nat ((x - e + step - 1) div step) \<le> MAX_ARRAY_LENGTH
      then Inr (acc @ map (\<lambda>k. x - int k * step) [0..<nat ((x - e + step - 1) div step)])
      else Inl RangeError)"
proof (induction "nat (x - e)" arbitrary: x acc rule: less_induct)
  case less
  show ?case
  proof (cases "e < x")
    case False
    then have "nat ((x - e + step - 1) div step) = 0"
      using count_zero [of step "x - e"] assms(1) by simp
    with False less.prems show ?thesis by (subst range_down.simps) simp
  next
    case True
    show ?thesis
    proof (cases "length acc < MAX_ARRAY_LENGTH")
      case False
      have "0 < nat ((x - e + step - 1) div step)"
        using count_Suc [of step "x - e"] assms(1) True by simp
      with False True show ?thesis by (subst range_down.simps) simp
    next
      case room: True
      show ?thesis
      proof (cases "- (2 ^ 53) \<le> x - step")
        case exact: True
        have rd: "round_double (x - step) = x - step"
          using exact less.prems(1) assms(1) by (intro round_double_exact) simp
        let ?n = "nat ((x - step - e + step - 1) div step)"
        have n: "nat ((x - e + step - 1) div step) = Suc ?n"
          using count_Suc [of step "x - e"] assms(1) True by (simp add: algebra_simps)
        have "nat (x - step - e) < nat (x - e)" using True assms(1) by linarith
        moreover have "x - step \<le> 2 ^ 53" using less.prems(1) assms(1) by linarith
        moreover have "length (acc @ [x]) \<le> MAX_ARRAY_LENGTH" using room by simp
        ultimately have ih: "range_down e step (x - step) (acc @ [x]) =
          (if length (acc @ [x]) + ?n \<le> MAX_ARRAY_LENGTH
           then Inr ((acc @ [x]) @ map (\<lambda>k. (x - step) - int k * step) [0..<?n])
           else Inl RangeError)"
          using less.hyps by blast
        have "map (\<lambda>k. x - int k * step) [0..<Suc ?n] =
              x # map (\<lambda>k. (x - step) - int k * step) [0..<?n]"
          by (simp add: upt_conv_Cons map_Suc_upt [symmetric] algebra_simps del: upt_Suc)
        with ih n True room rd show ?thesis by (subst range_down.simps) simp
      next
        case False
        then have big: "x - step < - (2 ^ 53)" by simp
        from round_double_small [OF big] assms(2) have stop: "\<not> e < round_double (x - step)"
          by linarith
        have "x - e \<le> step" using big assms(2) by linarith
        then have n: "nat ((x - e + step - 1) div step) = 1"
          using count_one [of step "x - e"] assms(1) True by simp
        have "range_down e step x acc = range_down e step (round_double (x - step)) (acc @ [x])"
          using True room by (subst range_down.simps) simp
        also have "\<dots> = Inr (acc @ [x])"
          using stop by (subst range_down.simps) simp
        finally show ?thesis using n room by simp
      qed
    qed
  qed
qed

text \<open>A loop whose test cannot fail fills the array.\<close>

lemma range_up_full:
  assumes "\<And>x. P x \<Longrightarrow> x < e \<and> P (round_double (x + step))"
  shows "P element \<Longrightarrow> range_up e step element array = Inl RangeError"
proof (induction "MAX_ARRAY_LENGTH - length array" arbitrary: element array rule: less_induct)
  case less
  from assms [OF less.prems] have lt: "element < e" and nxt: "P (round_double (element + step))"
    by simp_all
  show ?case
  proof (cases "length array < MAX_ARRAY_LENGTH")
    case False
    with lt show ?thesis by (subst range_up.simps) simp
  next
    case True
    then have "MAX_ARRAY_LENGTH - length (array @ [element]) < MAX_ARRAY_LENGTH - length array"
      by simp
    from less.hyps [OF this nxt] lt True show ?thesis by (subst range_up.simps) simp
  qed
qed

lemma range_down_full:
  assumes "\<And>x. P x \<Longrightarrow> e < x \<and> P (round_double (x - step))"
  shows "P element \<Longrightarrow> range_down e step element array = Inl RangeError"
proof (induction "MAX_ARRAY_LENGTH - length array" arbitrary: element array rule: less_induct)
  case less
  from assms [OF less.prems] have lt: "e < element" and nxt: "P (round_double (element - step))"
    by simp_all
  show ?case
  proof (cases "length array < MAX_ARRAY_LENGTH")
    case False
    with lt show ?thesis by (subst range_down.simps) simp
  next
    case True
    then have "MAX_ARRAY_LENGTH - length (array @ [element]) < MAX_ARRAY_LENGTH - length array"
      by simp
    from less.hyps [OF this nxt] lt True show ?thesis by (subst range_down.simps) simp
  qed
qed

lemma range_up_backwards:
  assumes "step \<le> 0" and "- (2 ^ 53) < e" and "e \<le> 2 ^ 53" and "element < e"
  shows "range_up e step element array = Inl RangeError"
proof (rule range_up_full [where P = "\<lambda>x. x < e"])
  fix x assume x: "x < e"
  consider "\<bar>x + step\<bar> \<le> 2 ^ 53" | "x + step < - (2 ^ 53)"
    using x assms(1,3) by linarith
  then have "round_double (x + step) < e"
  proof cases
    case 1
    then show ?thesis using x assms(1) by (simp add: round_double_exact)
  next
    case 2
    from round_double_small [OF 2] assms(2) show ?thesis by linarith
  qed
  with x show "x < e \<and> round_double (x + step) < e" by simp
qed (rule assms(4))

lemma range_down_backwards:
  assumes "step \<le> 0" and "- (2 ^ 53) \<le> e" and "e < 2 ^ 53" and "e < element"
  shows "range_down e step element array = Inl RangeError"
proof (rule range_down_full [where P = "\<lambda>x. e < x"])
  fix x assume x: "e < x"
  consider "\<bar>x - step\<bar> \<le> 2 ^ 53" | "2 ^ 53 < x - step"
    using x assms(1,2) by linarith
  then have "e < round_double (x - step)"
  proof cases
    case 1
    then show ?thesis using x assms(1) by (simp add: round_double_exact)
  next
    case 2
    from round_double_large [OF 2] assms(3) show ?thesis by linarith
  qed
  with x show "e < x \<and> e < round_double (x - step)" by simp
qed (rule assms(4))

lemma count_bounds:
  fixes step d :: int
  assumes "1 \<le> step"
  defines "n \<equiv> nat ((d + step - 1) div step)"
  shows "d \<le> int n * step" and "k < n \<Longrightarrow> int k * step < d"
proof -
  let ?q = "(d + step - 1) div step"
  have pos: "0 < step" using assms(1) by simp
  have eq: "?q * step + (d + step - 1) mod step = d + step - 1" by simp
  have m: "0 \<le> (d + step - 1) mod step" "(d + step - 1) mod step < step"
    using pos by simp_all
  have lo: "d \<le> ?q * step" using eq m by linarith
  have hi: "?q * step - step < d" using eq m by linarith
  show "d \<le> int n * step"
  proof (cases "0 \<le> ?q")
    case True then show ?thesis using lo by (simp add: n_def)
  next
    case False
    then have "?q * step \<le> 0" using pos by (simp add: mult_le_0_iff)
    with lo False show ?thesis by (simp add: n_def)
  qed
  show "int k * step < d" if "k < n"
  proof -
    from that have "int k + 1 \<le> ?q" by (simp add: n_def)
    then have "(int k + 1) * step \<le> ?q * step" using pos by (simp add: mult_right_mono)
    then show ?thesis using hi by (simp add: algebra_simps)
  qed
qed

text \<open>The count fits the array iff the distance is at most the capacity times the step.\<close>

lemma count_fits:
  fixes step d :: int
  assumes "1 \<le> step"
  shows "nat ((d + step - 1) div step) \<le> m \<longleftrightarrow> d \<le> int m * step"
proof
  assume le: "nat ((d + step - 1) div step) \<le> m"
  have "d \<le> int (nat ((d + step - 1) div step)) * step"
    using count_bounds(1) [OF assms, of d] by simp
  also have "\<dots> \<le> int m * step"
  proof (rule mult_right_mono)
    show "int (nat ((d + step - 1) div step)) \<le> int m" using le by (rule of_nat_mono)
    show "0 \<le> step" using assms by simp
  qed
  finally show "d \<le> int m * step" .
next
  assume d: "d \<le> int m * step"
  show "nat ((d + step - 1) div step) \<le> m"
  proof (rule ccontr)
    assume "\<not> nat ((d + step - 1) div step) \<le> m"
    then have "m < nat ((d + step - 1) div step)" by simp
    from count_bounds(2) [OF assms this] d show False by simp
  qed
qed

text \<open>A loop variable that stays where it is never fails the test of the loop.\<close>

lemma range_up_stalls:
  "round_double (element + step) = element \<Longrightarrow> element < e \<Longrightarrow>
   range_up e step element array = Inl RangeError"
  by (rule range_up_full [where P = "\<lambda>x. x = element"]) simp_all

text \<open>
  Claim C8 says that \<open>range(end, start, step)\<close> returns an array for all integers \<open>end\<close> and
  \<open>start\<close> and every step of at least 1. The integers \<open>2^53\<close> and \<open>2^53 + 2\<close> are doubles, and
  \<open>2^53 + 1\<close> rounds back to \<open>2^53\<close>: in \<open>range(2^53 + 2, 2^53, 1)\<close> the loop variable never
  advances, the test \<open>element < end\<close> never fails, and the call ends in the error of a full
  array instead of returning.
\<close>

theorem range_util_stalls_counterexample:
  "\<bar>9007199254740992 :: int\<bar> = 2 ^ 53 \<and>
   round_double 9007199254740992 = 9007199254740992 \<and>
   round_double 9007199254740994 = 9007199254740994 \<and>
   round_double (9007199254740992 + 1) = 9007199254740992 \<and>
   range_util 9007199254740994 9007199254740992 1 = Inl RangeError"
proof -
  have a: "round_double 9007199254740992 = 9007199254740992" by (simp add: round_double_def)
  have b: "round_double 9007199254740994 = 9007199254740994" by code_simp
  have c: "round_double (9007199254740992 + 1) = 9007199254740992" by code_simp
  have "range_up 9007199254740994 1 9007199254740992 [] = Inl RangeError"
    using c by (intro range_up_stalls) simp_all
  then have "range_util 9007199254740994 9007199254740992 1 = Inl RangeError"
    by (simp add: range_util_def sgn_round_double)
  with a b c show ?thesis by simp
qed

text \<open>
  Claim C8, amended: for all integers \<open>end\<close> and \<open>start\<close> of magnitude at most \<open>2^53\<close> and
  every step of at least 1 such that the distance between \<open>start\<close> and \<open>end\<close> is at most
  \<open>2^32 - 1\<close> steps, \<open>range(end, start, step)\<close> returns; the array holds the values \<open>start\<close>,
  \<open>start + step\<close>, ... that are below \<open>end\<close> or, when \<open>end < start\<close>, the values \<open>start\<close>,
  \<open>start - step\<close>, ... that are above \<open>end\<close>, and it stops at the first value that is not.
  Outside these bounds it need not return: when the distance is more than \<open>2^32 - 1\<close> steps,
  and when the step is 0 or less and \<open>end\<close> is distinct from \<open>start\<close>, the call ends in the
  error of a full array.
\<close>

theorem range_util_returns:
  assumes "\<bar>s\<bar> \<le> 2 ^ 53" and "\<bar>e\<bar> \<le> 2 ^ 53"
  shows
  "(1 \<le> step \<and> \<bar>e - s\<bar> \<le> int MAX_ARRAY_LENGTH * step \<longrightarrow>
      (\<exists>xs. range_util e s step = Inr xs \<and>
         (if e < s
          then xs = map (\<lambda>k. s - int k * step) [0..<length xs] \<and>
               (\<forall>k<length xs. e < s - int k * step) \<and> s - int (length xs) * step \<le> e
          else xs = map (\<lambda>k. s + int k * step) [0..<length xs] \<and>
               (\<forall>k<length xs. s + int k * step < e) \<and> e \<le> s + int (length xs) * step))) \<and>
   (1 \<le> step \<and> int MAX_ARRAY_LENGTH * step < \<bar>e - s\<bar> \<longrightarrow> range_util e s step = Inl RangeError) \<and>
   (step \<le> 0 \<and> e \<noteq> s \<longrightarrow> range_util e s step = Inl RangeError)"
proof -
  have sg: "sgn (round_double (e - s)) = - 1 \<longleftrightarrow> e < s"
    unfolding sgn_round_double by (simp add: sgn_if)
  have dir: "range_util e s step = (if e < s then range_down e step s [] else range_up e step s [])"
    by (simp only: range_util_def sg)
  have bs: "- (2 ^ 53) \<le> s" "s \<le> 2 ^ 53" "- (2 ^ 53) \<le> e" "e \<le> 2 ^ 53"
    using assms by linarith+
  have closed: "range_util e s step =
      (if e < s
       then (if nat ((s - e + step - 1) div step) \<le> MAX_ARRAY_LENGTH
             then Inr (map (\<lambda>k. s - int k * step) [0..<nat ((s - e + step - 1) div step)])
             else Inl RangeError)
       else (if nat ((e - s + step - 1) div step) \<le> MAX_ARRAY_LENGTH
             then Inr (map (\<lambda>k. s + int k * step) [0..<nat ((e - s + step - 1) div step)])
             else Inl RangeError))" if st: "1 \<le> step"
    using range_down_closed [OF st bs(3) bs(2), of "[]"] range_up_closed [OF st bs(4) bs(1), of "[]"]
    by (simp add: dir)
  show ?thesis
  proof (intro conjI impI)
    assume h: "1 \<le> step \<and> \<bar>e - s\<bar> \<le> int MAX_ARRAY_LENGTH * step"
    then have st: "1 \<le> step" by simp
    show "\<exists>xs. range_util e s step = Inr xs \<and>
         (if e < s
          then xs = map (\<lambda>k. s - int k * step) [0..<length xs] \<and>
               (\<forall>k<length xs. e < s - int k * step) \<and> s - int (length xs) * step \<le> e
          else xs = map (\<lambda>k. s + int k * step) [0..<length xs] \<and>
               (\<forall>k<length xs. s + int k * step < e) \<and> e \<le> s + int (length xs) * step)"
    proof (cases "e < s")
      case True
      let ?n = "nat ((s - e + step - 1) div step)"
      have "?n \<le> MAX_ARRAY_LENGTH" using h True by (simp add: count_fits [OF st])
      then have r: "range_util e s step = Inr (map (\<lambda>k. s - int k * step) [0..<?n])"
        using True closed [OF st] by simp
      have b: "s - e \<le> int ?n * step" "\<And>k. k < ?n \<Longrightarrow> int k * step < s - e"
        using count_bounds [OF st, where d = "s - e"] by simp_all
      show ?thesis using True r b by (auto simp: algebra_simps)
    next
      case False
      let ?n = "nat ((e - s + step - 1) div step)"
      have "?n \<le> MAX_ARRAY_LENGTH" using h False by (simp add: count_fits [OF st])
      then have r: "range_util e s step = Inr (map (\<lambda>k. s + int k * step) [0..<?n])"
        using False closed [OF st] by simp
      have b: "e - s \<le> int ?n * step" "\<And>k. k < ?n \<Longrightarrow> int k * step < e - s"
        using count_bounds [OF st, where d = "e - s"] by simp_all
      show ?thesis using False r b by (auto simp: algebra_simps)
    qed
  next
    assume h: "1 \<le> step \<and> int MAX_ARRAY_LENGTH * step < \<bar>e - s\<bar>"
    then have st: "1 \<le> step" by simp
    show "range_util e s step = Inl RangeError"
    proof (cases "e < s")
      case True
      then have "\<not> nat ((s - e + step - 1) div step) \<le> MAX_ARRAY_LENGTH"
        using h by (simp add: count_fits [OF st])
      then show ?thesis using True closed [OF st] by simp
    next
      case False
      then have "\<not> nat ((e - s + step - 1) div step) \<le> MAX_ARRAY_LENGTH"
        using h by (simp add: count_fits [OF st])
      then show ?thesis using False closed [OF st] by simp
    qed
  next
    assume h: "step \<le> 0 \<and> e \<noteq> s"
    show "range_util e s step = Inl RangeError"
    proof (cases "e < s")
      case True
      then have "e < 2 ^ 53" using bs by linarith
      with h True bs show ?thesis by (simp add: dir range_down_backwards)
    next
      case False
      with h have lt: "s < e" by simp
      then have "- (2 ^ 53) < e" using bs by linarith
      with h lt False bs show ?thesis by (simp add: dir range_up_backwards)
    qed
  qed
qed

theorem range_util_returns_witness:
  "\<bar>0 :: int\<bar> \<le> 2 ^ 53 \<and> \<bar>7 :: int\<bar> \<le> 2 ^ 53 \<and> (1 :: int) \<le> 2 \<and>
   \<bar>7 - 0 :: int\<bar> \<le> int MAX_ARRAY_LENGTH * 2 \<and>
   range_util 7 0 2 = Inr [0, 2, 4, 6] \<and> range_util 0 7 2 = Inr [7, 5, 3, 1] \<and>
   (0 :: int) \<le> 0 \<and> (3 :: int) \<noteq> 1 \<and> range_util 3 1 0 = Inl RangeError \<and>
   int MAX_ARRAY_LENGTH * 1 < \<bar>4294967296 - 0 :: int\<bar> \<and>
   range_util 4294967296 0 1 = Inl RangeError"
proof -
  have a: "range_util 7 0 2 = Inr [0, 2, 4, 6]"
    by (simp add: range_util_def range_up.simps round_double_def MAX_ARRAY_LENGTH_def)
  have b: "range_util 0 7 2 = Inr [7, 5, 3, 1]"
    by (simp add: range_util_def range_down.simps round_double_def MAX_ARRAY_LENGTH_def)
  have c: "range_util 3 1 0 = Inl RangeError"
    using range_util_returns [of 1 3 0] by simp
  have d: "range_util 4294967296 0 1 = Inl RangeError"
    using range_util_returns [of 0 4294967296 1] by (simp add: MAX_ARRAY_LENGTH_def)
  have e: "\<exists>xs. range_util 7 0 2 = Inr xs" "\<exists>xs. range_util 0 7 2 = Inr xs"
    using range_util_returns [of 0 7 2] range_util_returns [of 7 0 2]
    by (auto simp add: MAX_ARRAY_LENGTH_def)
  from a b c d e show ?thesis by (simp add: MAX_ARRAY_LENGTH_def)
qed

subsection \<open>The evaluator\<close>

text \<open>
  Claim C1: \<open>getComputedValue\<close> has three cases. An absent cell gives \<open>null\<close>. A formula cell
  gives what \<open>getFormulaComputedValue\<close> gives, which is the parser's response to the
  extracted expression, read as \<open>error || result\<close>. Any other cell gives its value unchanged;
  the cell with the value \<open>hello\<close> gives \<open>hello\<close>.
\<close>

theorem getComputedValue_dispatch:
  "getComputedValue None fp = JNull \<and>
   (isFormulaCell c \<longrightarrow>
      getComputedValue (Some c) fp = getFormulaComputedValue c fp \<and>
      getComputedValue (Some c) fp =
        js_or (error (fp (extractFormula (value c)))) (result (fp (extractFormula (value c))))) \<and>
   (\<not> isFormulaCell c \<longrightarrow> getComputedValue (Some c) fp = value c) \<and>
   getComputedValue (Some (text_cell ''hello'')) fp = JStr ''hello''"
  by (simp add: getComputedValue_def getFormulaComputedValue_def isFormulaCell_def text_cell_def
      FORMULA_VALUE_PREFIX_def Let_def)

theorem getComputedValue_dispatch_witness:
  "isFormulaCell (text_cell ''=1+1'') \<and> getComputedValue (Some (text_cell ''=1+1'')) two_parser = JNum 2 \<and>
   \<not> isFormulaCell (text_cell ''hello'') \<and>
   getComputedValue (Some (text_cell ''hello'')) two_parser = JStr ''hello'' \<and>
   getComputedValue None two_parser = JNull"
proof -
  have f: "isFormulaCell (text_cell ''=1+1'')"
    by (simp add: isFormulaCell_def text_cell_def FORMULA_VALUE_PREFIX_def)
  have l: "\<not> isFormulaCell (text_cell ''hello'')"
    by (simp add: isFormulaCell_def text_cell_def FORMULA_VALUE_PREFIX_def)
  from f getComputedValue_dispatch [of two_parser "text_cell ''=1+1''"]
  have "getComputedValue (Some (text_cell ''=1+1'')) two_parser =
        js_or (error (two_parser (extractFormula (value (text_cell ''=1+1'')))))
              (result (two_parser (extractFormula (value (text_cell ''=1+1'')))))"
    by blast
  then have a: "getComputedValue (Some (text_cell ''=1+1'')) two_parser = JNum 2"
    by (simp add: two_parser_def js_or_def)
  from l getComputedValue_dispatch [of two_parser "text_cell ''hello''"]
  have b: "getComputedValue (Some (text_cell ''hello'')) two_parser = JStr ''hello''"
    and c: "getComputedValue None two_parser = JNull"
    by blast+
  from f l a b c show ?thesis by blast
qed

text \<open>
  Claim C9: a present cell whose value is not a formula value gives its value exactly as it
  is stored. A present cell whose value is \<open>undefined\<close> gives \<open>undefined\<close>, which is not the
  \<open>null\<close> of an absent cell.
\<close>

theorem getComputedValue_literal:
  "(\<not> isFormulaCell c \<longrightarrow> getComputedValue (Some c) fp = value c) \<and>
   getComputedValue (Some empty_cell) fp = JUndefined \<and>
   getComputedValue (Some empty_cell) fp \<noteq> getComputedValue None fp"
  by (simp add: getComputedValue_def isFormulaCell_def empty_cell_def)

theorem getComputedValue_literal_witness:
  "\<not> isFormulaCell (number_cell 0) \<and> getComputedValue (Some (number_cell 0)) two_parser = JNum 0"
  using getComputedValue_literal [of "number_cell 0" two_parser]
  by (simp add: isFormulaCell_def number_cell_def)

text \<open>
  Claim C4 says that an error token of the parser, a string, is returned as it is. The
  choice \<open>error || result\<close> tests the error for truthiness, so an empty error string is
  passed over and the result, here \<open>undefined\<close>, is returned in its place.
\<close>

theorem getFormulaComputedValue_empty_error_counterexample:
  "error (empty_error_parser (extractFormula (value (text_cell ''=1/0'')))) = JStr [] \<and>
   getFormulaComputedValue (text_cell ''=1/0'') empty_error_parser = JUndefined \<and>
   getFormulaComputedValue (text_cell ''=1/0'') empty_error_parser \<noteq>
     error (empty_error_parser (extractFormula (value (text_cell ''=1/0''))))"
  by (simp add: getFormulaComputedValue_def empty_error_parser_def js_or_def)

text \<open>
  Claim C4, amended: for every cell and every parser, a non-empty error string of the
  response is returned as it is; when the response has no error (the field is absent or
  \<open>null\<close>, or is an empty string, which counts as no error) the result is returned unchanged.
  Both go through the one return value.
\<close>

theorem getFormulaComputedValue_verbatim:
  "(error (fp (extractFormula (value c))) = JStr e \<and> e \<noteq> [] \<longrightarrow>
      getFormulaComputedValue c fp = JStr e) \<and>
   (error (fp (extractFormula (value c))) = JUndefined \<or>
    error (fp (extractFormula (value c))) = JNull \<or>
    error (fp (extractFormula (value c))) = JStr [] \<longrightarrow>
      getFormulaComputedValue c fp = result (fp (extractFormula (value c))))"
  by (auto simp add: getFormulaComputedValue_def js_or_def Let_def)

theorem getFormulaComputedValue_verbatim_witness:
  "error (div0_parser (extractFormula (value (text_cell ''=1/0'')))) = JStr ''#DIV/0!'' \<and>
   getFormulaComputedValue (text_cell ''=1/0'') div0_parser = JStr ''#DIV/0!'' \<and>
   error (two_parser (extractFormula (value (text_cell ''=1+1'')))) = JUndefined \<and>
   getFormulaComputedValue (text_cell ''=1+1'') two_parser = JNum 2"
  using getFormulaComputedValue_verbatim [of div0_parser "text_cell ''=1/0''" "''#DIV/0!''"]
    getFormulaComputedValue_verbatim [of two_parser "text_cell ''=1+1''" "[]"]
  by (simp add: div0_parser_def two_parser_def)

subsection \<open>Reading the clipboard\<close>

text \<open>
  Claim C5 says that the text is read from the event's clipboard data and that the global
  accessor is the fallback. The function tests the global accessor first: when both are
  there and hold different texts, it returns the text of the global accessor, not the
  event's.
\<close>

theorem readTextFromClipboard_order_counterexample:
  "readTextFromClipboard (Some global_clipboard) \<lparr>clipboardData = Some event_clipboard\<rparr> = ''from window'' \<and>
   readTextFromClipboard_spec (Some global_clipboard) \<lparr>clipboardData = Some event_clipboard\<rparr> = ''from event'' \<and>
   readTextFromClipboard (Some global_clipboard) \<lparr>clipboardData = Some event_clipboard\<rparr> \<noteq>
   readTextFromClipboard_spec (Some global_clipboard) \<lparr>clipboardData = Some event_clipboard\<rparr>"
  by (simp add: readTextFromClipboard_def readTextFromClipboard_spec_def getData_of_def
      global_clipboard_def event_clipboard_def)

text \<open>
  Claim C5, amended: when the global clipboard accessor is there with its \<open>getData\<close> method,
  the function returns what it holds for the format \<open>Text\<close>, whatever the event carries;
  otherwise, when the event's clipboard data is there with its method, it returns the
  event's payload for \<open>text/plain\<close>; when neither is there it returns the empty string.
\<close>

theorem readTextFromClipboard_cases:
  "(getData_of w = Some g \<longrightarrow> readTextFromClipboard w ev = g ''Text'') \<and>
   (getData_of w = None \<and> getData_of (clipboardData ev) = Some g \<longrightarrow>
      readTextFromClipboard w ev = g ''text/plain'') \<and>
   (getData_of w = None \<and> getData_of (clipboardData ev) = None \<longrightarrow>
      readTextFromClipboard w ev = [])"
  by (simp add: readTextFromClipboard_def PLAIN_TEXT_MIME_def)

theorem readTextFromClipboard_cases_witness:
  "getData_of None = None \<and>
   readTextFromClipboard None \<lparr>clipboardData = Some event_clipboard\<rparr> = ''from event'' \<and>
   readTextFromClipboard None \<lparr>clipboardData = None\<rparr> = [] \<and>
   readTextFromClipboard (Some global_clipboard) \<lparr>clipboardData = None\<rparr> = ''from window''"
  using readTextFromClipboard_cases [of None "\<lambda>format. ''from event''" "\<lparr>clipboardData = Some event_clipboard\<rparr>"]
    readTextFromClipboard_cases [of None undefined "\<lparr>clipboardData = None\<rparr>"]
    readTextFromClipboard_cases [of "Some global_clipboard" "\<lambda>format. ''from window''" "\<lparr>clipboardData = None\<rparr>"]
  by (simp add: getData_of_def event_clipboard_def global_clipboard_def)

subsection \<open>The size of the spreadsheet\<close>

text \<open>
  Claim C7: \<open>calculateSpreadsheetSize\<close> returns, for the rows and for the columns, the
  maximum of the size of the data and the length of the label array; a label array that is
  not given adds nothing. For data of size 2 by 2 and three row labels the size is 3 rows
  by 2 columns.
\<close>

theorem calculateSpreadsheetSize_max:
  "calculateSpreadsheetSize data rowLabels columnLabels =
     \<lparr>rows = max (rows (getSize data)) (case rowLabels of None \<Rightarrow> 0 | Some ls \<Rightarrow> length ls),
      columns = max (columns (getSize data)) (case columnLabels of None \<Rightarrow> 0 | Some ls \<Rightarrow> length ls)\<rparr> \<and>
   (getSize data = \<lparr>rows = 2, columns = 2\<rparr> \<and> length labels = 3 \<longrightarrow>
      calculateSpreadsheetSize data (Some labels) None = \<lparr>rows = 3, columns = 2\<rparr>)"
  by (simp add: calculateSpreadsheetSize_def Let_def split: option.splits)

theorem calculateSpreadsheetSize_max_witness:
  "getSize abcd = \<lparr>rows = 2, columns = 2\<rparr> \<and> length [''1'', ''2'', ''3''] = 3 \<and>
   calculateSpreadsheetSize abcd (Some [''1'', ''2'', ''3'']) None = \<lparr>rows = 3, columns = 2\<rparr>"
proof -
  have s: "getSize abcd = \<lparr>rows = 2, columns = 2\<rparr>"
    by (simp add: getSize_def maxPoint_def occupied_columns_def abcd_def)
  show ?thesis
    using s calculateSpreadsheetSize_max [of abcd "Some [''1'', ''2'', ''3'']" None "[''1'', ''2'', ''3'']"]
    by simp
qed

subsection \<open>Pixel dimensions of a range\<close>

text \<open>
  Claim C10: \<open>getRangeDimensions\<close> returns dimensions iff the state has row and column
  metadata for both corners of the range. The dimensions are then the box that spans the
  two corner cells: left and top of the start cell, width and height up to the far edge of
  the end cell. When any metadata is missing the result is \<open>undefined\<close>.
\<close>

theorem getRangeDimensions_defined:
  "(getRangeDimensions state rng \<noteq> None \<longleftrightarrow>
      rowDimensions state (row (start rng)) \<noteq> None \<and>
      columnDimensions state (column (start rng)) \<noteq> None \<and>
      rowDimensions state (row (end rng)) \<noteq> None \<and>
      columnDimensions state (column (end rng)) \<noteq> None) \<and>
   (rowDimensions state (row (start rng)) = Some rs \<and>
    columnDimensions state (column (start rng)) = Some cs \<and>
    rowDimensions state (row (end rng)) = Some re \<and>
    columnDimensions state (column (end rng)) = Some ce \<longrightarrow>
      getRangeDimensions state rng =
        Some \<lparr>width = column_left ce + column_width ce - column_left cs,
              height = row_top re + row_height re - row_top rs,
              top_px = row_top rs,
              left = column_left cs\<rparr>)"
  by (auto simp add: getRangeDimensions_def getCellDimensions_def split: option.splits)

theorem getRangeDimensions_defined_witness:
  "rowDimensions sample_state 0 = Some \<lparr>row_height = 20, row_top = 0\<rparr> \<and>
   columnDimensions sample_state 0 = Some \<lparr>column_width = 100, column_left = 0\<rparr> \<and>
   rowDimensions sample_state 1 = Some \<lparr>row_height = 20, row_top = 20\<rparr> \<and>
   columnDimensions sample_state 1 = Some \<lparr>column_width = 80, column_left = 100\<rparr> \<and>
   getRangeDimensions sample_state \<lparr>start = \<lparr>row = 0, column = 0\<rparr>, end = \<lparr>row = 1, column = 1\<rparr>\<rparr> =
     Some \<lparr>width = 180, height = 40, top_px = 0, left = 0\<rparr> \<and>
   rowDimensions sample_state 2 = None \<and>
   getRangeDimensions sample_state \<lparr>start = \<lparr>row = 0, column = 0\<rparr>, end = \<lparr>row = 2, column = 1\<rparr>\<rparr> = None"
  using getRangeDimensions_defined [of sample_state
      "\<lparr>start = \<lparr>row = 0, column = 0\<rparr>, end = \<lparr>row = 1, column = 1\<rparr>\<rparr>"
      "\<lparr>row_height = 20, row_top = 0\<rparr>" "\<lparr>column_width = 100, column_left = 0\<rparr>"
      "\<lparr>row_height = 20, row_top = 20\<rparr>" "\<lparr>column_width = 80, column_left = 100\<rparr>"]
    getRangeDimensions_defined [of sample_state
      "\<lparr>start = \<lparr>row = 0, column = 0\<rparr>, end = \<lparr>row = 2, column = 1\<rparr>\<rparr>"]
  by (simp add: sample_state_def)

subsection \<open>Selections against a matrix\<close>

lemma clamp_point_within:
  "row (start bounds) \<le> row (end bounds) \<Longrightarrow> column (start bounds) \<le> column (end bounds) \<Longrightarrow>
   point_within bounds (clamp_point bounds p)"
  by (simp add: point_within_def clamp_point_def)

lemma create_ordered:
  "row (start (create a b)) \<le> row (end (create a b)) \<and>
   column (start (create a b)) \<le> column (end (create a b))"
  by (simp add: create_def min_le_iff_disj le_max_iff_disj)

lemma mask_range_contained:
  "row (start bounds) \<le> row (end bounds) \<Longrightarrow> column (start bounds) \<le> column (end bounds) \<Longrightarrow>
   contained (mask_range masked bounds) bounds"
  by (simp add: contained_def mask_range_def clamp_point_within)

lemma set_iterate: "set (iterate rng) = {p. point_within rng p}"
proof -
  have "p \<in> set (iterate rng) \<longleftrightarrow> point_within rng p" for p
    by (cases p)
      (auto simp add: iterate_def point_within_def image_iff less_Suc_eq_le simp del: upt_Suc)
  then show ?thesis by blast
qed

lemma contained_points:
  "contained rng bounds \<Longrightarrow> point_within rng p \<Longrightarrow> point_within bounds p"
  by (auto simp add: contained_def point_within_def)

text \<open>
  Claim C3: \<open>normalizeSelected\<close> masks a range selection to \<open>getMatrixRange\<close> of the data
  and returns every other selection unchanged. A range it returns lies within
  \<open>getMatrixRange\<close> of the data: both corners do, and so does every point of the range.
\<close>

theorem normalizeSelected_contained:
  "normalizeSelected (RangeSelection r) d = RangeSelection (mask_range r (getMatrixRange d)) \<and>
   (\<not> is_range s \<longrightarrow> normalizeSelected s d = s) \<and>
   (normalizeSelected s d = RangeSelection r' \<longrightarrow>
      contained r' (getMatrixRange d) \<and> set (iterate r') \<subseteq> set (iterate (getMatrixRange d)))"
proof (intro conjI impI)
  show "normalizeSelected (RangeSelection r) d = RangeSelection (mask_range r (getMatrixRange d))"
    by (simp add: normalizeSelected_def)
  show "normalizeSelected s d = s" if "\<not> is_range s"
    using that by (cases s) (simp_all add: normalizeSelected_def)
  assume n: "normalizeSelected s d = RangeSelection r'"
  have ord: "row (start (getMatrixRange d)) \<le> row (end (getMatrixRange d))"
    "column (start (getMatrixRange d)) \<le> column (end (getMatrixRange d))"
    using create_ordered [of ORIGIN "maxPoint d"] by (simp_all add: getMatrixRange_def)
  from n obtain r0 where "s = RangeSelection r0" and "r' = mask_range r0 (getMatrixRange d)"
    by (cases s) (auto simp add: normalizeSelected_def)
  then show c: "contained r' (getMatrixRange d)"
    using mask_range_contained [OF ord] by simp
  show "set (iterate r') \<subseteq> set (iterate (getMatrixRange d))"
    using contained_points [OF c] by (auto simp add: set_iterate)
qed

theorem normalizeSelected_contained_witness:
  "normalizeSelected (RangeSelection \<lparr>start = \<lparr>row = 1, column = 0\<rparr>, end = \<lparr>row = 6, column = 6\<rparr>\<rparr>) abcd =
     RangeSelection \<lparr>start = \<lparr>row = 1, column = 0\<rparr>, end = \<lparr>row = 2, column = 2\<rparr>\<rparr> \<and>
   contained \<lparr>start = \<lparr>row = 1, column = 0\<rparr>, end = \<lparr>row = 2, column = 2\<rparr>\<rparr> (getMatrixRange abcd) \<and>
   \<not> is_range EntireTableSelection \<and> normalizeSelected EntireTableSelection abcd = EntireTableSelection"
proof -
  have m: "getMatrixRange abcd = \<lparr>start = \<lparr>row = 0, column = 0\<rparr>, end = \<lparr>row = 2, column = 2\<rparr>\<rparr>"
    by (simp add: getMatrixRange_def maxPoint_def occupied_columns_def abcd_def create_def ORIGIN_def)
  have n: "normalizeSelected (RangeSelection \<lparr>start = \<lparr>row = 1, column = 0\<rparr>, end = \<lparr>row = 6, column = 6\<rparr>\<rparr>) abcd =
     RangeSelection \<lparr>start = \<lparr>row = 1, column = 0\<rparr>, end = \<lparr>row = 2, column = 2\<rparr>\<rparr>"
    by (simp add: normalizeSelected_def m mask_range_def clamp_point_def)
  from n normalizeSelected_contained [of _ abcd
      "RangeSelection \<lparr>start = \<lparr>row = 1, column = 0\<rparr>, end = \<lparr>row = 6, column = 6\<rparr>\<rparr>"
      "\<lparr>start = \<lparr>row = 1, column = 0\<rparr>, end = \<lparr>row = 2, column = 2\<rparr>\<rparr>"]
  have c: "contained \<lparr>start = \<lparr>row = 1, column = 0\<rparr>, end = \<lparr>row = 2, column = 2\<rparr>\<rparr> (getMatrixRange abcd)"
    by blast
  have e: "normalizeSelected EntireTableSelection abcd = EntireTableSelection"
    using normalizeSelected_contained [of _ abcd EntireTableSelection] by simp
  from n c e show ?thesis by simp
qed

lemma sorted_wrt_row: "sorted_wrt row_major_less (map (\<lambda>c. \<lparr>row = r, column = c\<rparr>) [a..<b])"
  by (simp add: sorted_wrt_map row_major_less_def sorted_wrt_upt)

lemma sorted_wrt_rows:
  "sorted_wrt (<) rs \<Longrightarrow>
   sorted_wrt row_major_less (concat (map (\<lambda>r. map (\<lambda>c. \<lparr>row = r, column = c\<rparr>) [a..<b]) rs))"
proof (induction rs)
  case Nil
  then show ?case by simp
next
  case (Cons r rs)
  have "\<forall>p \<in> set (map (\<lambda>c. \<lparr>row = r, column = c\<rparr>) [a..<b]).
        \<forall>q \<in> set (concat (map (\<lambda>r. map (\<lambda>c. \<lparr>row = r, column = c\<rparr>) [a..<b]) rs)).
          row_major_less p q"
    using Cons.prems by (auto simp add: row_major_less_def)
  then show ?case
    using Cons sorted_wrt_row [of r a b] by (simp add: sorted_wrt_append)
qed

text \<open>
  Claim C6: for a range selection \<open>getSelectedPoints\<close> returns the iteration of the range
  as a list: exactly the points of the rectangle, in row-major order. For every other
  selection it returns the empty list.
\<close>

theorem getSelectedPoints_row_major:
  "getSelectedPoints (RangeSelection r) = iterate r \<and>
   set (getSelectedPoints (RangeSelection r)) = {p. point_within r p} \<and>
   sorted_wrt row_major_less (getSelectedPoints (RangeSelection r)) \<and>
   (\<not> is_range s \<longrightarrow> getSelectedPoints s = [])"
proof (intro conjI impI)
  show "getSelectedPoints (RangeSelection r) = iterate r" by (simp add: getSelectedPoints_def)
  show "set (getSelectedPoints (RangeSelection r)) = {p. point_within r p}"
    by (simp add: getSelectedPoints_def set_iterate)
  show "sorted_wrt row_major_less (getSelectedPoints (RangeSelection r))"
    using sorted_wrt_rows [of "[row (start r) ..< Suc (row (end r))]"]
    by (simp add: getSelectedPoints_def iterate_def sorted_wrt_upt del: upt_Suc)
  show "getSelectedPoints s = []" if "\<not> is_range s"
    using that by (cases s) (simp_all add: getSelectedPoints_def)
qed

theorem getSelectedPoints_row_major_witness:
  "getSelectedPoints (RangeSelection \<lparr>start = \<lparr>row = 0, column = 0\<rparr>, end = \<lparr>row = 1, column = 1\<rparr>\<rparr>) =
     [\<lparr>row = 0, column = 0\<rparr>, \<lparr>row = 0, column = 1\<rparr>, \<lparr>row = 1, column = 0\<rparr>, \<lparr>row = 1, column = 1\<rparr>] \<and>
   \<not> is_range EmptySelection \<and> getSelectedPoints EmptySelection = [] \<and>
   \<not> is_range (EntireRowsSelection 0 3) \<and> getSelectedPoints (EntireRowsSelection 0 3) = []"
proof -
  have a: "getSelectedPoints (RangeSelection \<lparr>start = \<lparr>row = 0, column = 0\<rparr>, end = \<lparr>row = 1, column = 1\<rparr>\<rparr>) =
     [\<lparr>row = 0, column = 0\<rparr>, \<lparr>row = 0, column = 1\<rparr>, \<lparr>row = 1, column = 0\<rparr>, \<lparr>row = 1, column = 1\<rparr>]"
    by (simp add: getSelectedPoints_def iterate_def upt_rec)
  show ?thesis
    using a getSelectedPoints_row_major [of _ EmptySelection]
      getSelectedPoints_row_major [of _ "EntireRowsSelection 0 3"]
    by simp
qed

subsection \<open>CSV export\<close>

text \<open>
  What holds of the export: a selection that is no range gives the empty string, a range
  gives the join of the mapped slice, and the two by two matrix of \<open>a\<close>, \<open>b\<close>, \<open>c\<close>, \<open>d\<close>
  gives the four letters separated by a tab within a row and a newline between the rows.
\<close>

lemma csv_value_cases:
  "csv_value None = JStr []"
  "truthy (value c) \<Longrightarrow> csv_value (Some c) = value c"
  "\<not> truthy (value c) \<Longrightarrow> csv_value (Some c) = JStr []"
  by (simp_all add: csv_value_def js_or_def)

lemma getSelectedCSV_not_range: "\<not> is_range s \<Longrightarrow> getSelectedCSV s data = []"
  by (cases s) (simp_all add: getSelectedCSV_def)

lemma getSelectedCSV_range:
  "getSelectedCSV (RangeSelection r) data =
     join (map_matrix csv_value (slice (start r) (end r) data)) NEWLINE TAB"
  by (simp add: getSelectedCSV_def getCSV_def getRangeFromMatrix_def)

lemma getSelectedCSV_abcd:
  "getSelectedCSV (RangeSelection \<lparr>start = \<lparr>row = 0, column = 0\<rparr>, end = \<lparr>row = 1, column = 1\<rparr>\<rparr>) abcd =
     ''a'' @ TAB @ ''b'' @ NEWLINE @ ''c'' @ TAB @ ''d''"
  by code_simp

text \<open>
  Claim C2 says that every cell of the range contributes its literal value. The mapped
  function \<open>cell?.value || ""\<close> replaces every falsy value by the empty string, so a cell
  with the number 0 is exported as an empty field: the row of the cells 0 and 7 gives a tab
  followed by \<open>7\<close>, where the literal values are \<open>0\<close>, a tab and \<open>7\<close>.
\<close>

theorem getSelectedCSV_drops_zero:
  "getSelectedCSV (RangeSelection \<lparr>start = \<lparr>row = 0, column = 0\<rparr>, end = \<lparr>row = 0, column = 1\<rparr>\<rparr>) zero_seven =
     TAB @ ''7'' \<and>
   String_js (value (number_cell 0)) = ''0'' \<and>
   getSelectedCSV (RangeSelection \<lparr>start = \<lparr>row = 0, column = 0\<rparr>, end = \<lparr>row = 0, column = 1\<rparr>\<rparr>) zero_seven \<noteq>
     ''0'' @ TAB @ ''7''"
  by code_simp

end
